theory Spec2Isabelle
  imports
    Main
    "HOL-Library.Multiset"
    "HOL-Library.AList"
    "HOL-Library.Sublist"
    "HOL-Library.Char_ord"
    "HOL-Library.List_Lexorder"
    "HOL-Library.Product_Lexorder"
begin

section \<open>BishengRAGTool: retrieval, budget cutoff, reorder and answer synthesis\<close>

text \<open>
  A shallow embedding of \<^verbatim>\<open>bisheng_langchain/rag/bisheng_rag_tool.py\<close>.
  Exceptions are values of the type \<open>error\<close>; a call that may raise returns
  \<open>error + 'a\<close> with \<open>Inl\<close> for the exception. The collaborators the file imports
  (the ensemble retriever, the question-answering chain, the splitter and retriever
  constructors) are parameters of the model.
\<close>

subsection \<open>Data\<close>

text \<open>
  The exceptions the file raises itself (\<open>ValueError\<close> in \<^verbatim>\<open>_post_init_retriever\<close>, the
  \<open>KeyError\<close> of a dictionary subscript, the \<open>NameError\<close> of an unbound name) and
  \<open>ExternalError\<close> for any exception of a collaborator, carrying its message.
  \<open>KeyError\<close> carries the key and \<open>NameError\<close> the name.
\<close>

datatype error =
    ValueError string
  | KeyError string
  | NameError string
  | ExternalError string

text \<open>\<^verbatim>\<open>str(e)\<close> for these exceptions.\<close>

fun str_error :: "error \<Rightarrow> string" where
  "str_error (ValueError msg) = msg"
| "str_error (KeyError k) = [CHR 0x27] @ k @ [CHR 0x27]"
| "str_error (NameError n) = ''name '' @ [CHR 0x27] @ n @ [CHR 0x27] @ '' is not defined''"
| "str_error (ExternalError msg) = msg"

text \<open>The four retriever classes the file imports from \<^verbatim>\<open>init_retrievers\<close>.\<close>

datatype retriever_class =
    KeywordRetriever
  | BaselineVectorRetriever
  | MixRetriever
  | SmallerChunksVectorRetriever

text \<open>
  A langchain \<^verbatim>\<open>Document\<close>: \<^verbatim>\<open>page_content\<close> and the \<^verbatim>\<open>metadata\<close> dictionary. The file reads
  two keys of the dictionary, \<^verbatim>\<open>'source'\<close> and \<^verbatim>\<open>'chunk_index'\<close>; each may be absent
  (\<open>None\<close>). Their values are taken at the types the data model gives them: text for the
  source, an integer for the chunk index. \<open>origin_retriever\<close> is the tag of the
  retrieval strategy that produced the chunk.
\<close>

record metadata =
  source :: "string option"
  chunk_index :: "int option"
  origin_retriever :: "retriever_class option"

record doc =
  page_content :: string
  metadata :: metadata

text \<open>A dictionary of scalar settings read from the YAML file, values as written.\<close>

type_synonym kwargs = "(string \<times> string) list"

text \<open>
  One entry of \<^verbatim>\<open>params['retriever']['retrievers']\<close>: its \<^verbatim>\<open>type\<close>, its \<^verbatim>\<open>splitter\<close>
  dictionary (argument name to splitter settings) and its \<^verbatim>\<open>retrieval\<close> dictionary.
\<close>

record retriever_config =
  rtype :: string
  splitter :: "(string \<times> kwargs) list"
  retrieval :: kwargs

text \<open>
  The parts of \<^verbatim>\<open>self.params\<close> the file reads. \<^verbatim>\<open>prompt_type\<close> is tested with \<^verbatim>\<open>in\<close>
  and \<^verbatim>\<open>sort_by_source_and_index\<close> is read with \<^verbatim>\<open>.get(..., False)\<close>, so both may be
  absent.
\<close>

record params =
  retrievers :: "retriever_config list"
  prompt_type :: "string option"
  chain_type :: string
  max_content :: int
  sort_by_source_and_index :: "bool option"

text \<open>
  A constructed retriever: the class it was built from and its retrieval method, from a
  query and a collection name to documents or an exception.
\<close>

record retriever_obj =
  strategy :: retriever_class
  retrieve :: "string \<Rightarrow> string \<Rightarrow> error + doc list"

text \<open>A value of the \<^verbatim>\<open>input_kwargs\<close> dictionary handed to a retriever class.\<close>

datatype ('sp, 'st) arg = SplitterArg 'sp | ValueArg string | StoreArg 'st

text \<open>
  The collaborators \<^verbatim>\<open>__init__\<close> calls: \<^verbatim>\<open>import_by_type\<close> (a splitter class, called with
  keyword arguments), the retriever classes' constructors, \<^verbatim>\<open>import_class\<close> for the prompt
  and \<^verbatim>\<open>load_qa_chain\<close>. The chain maps the input documents and the question to the
  output dictionary.
\<close>

type_synonym chain = "doc list \<Rightarrow> string \<Rightarrow> error + (string \<times> string) list"

record ('sp, 'st, 'llm, 'p) collaborators =
  import_by_type :: "string \<Rightarrow> error + (kwargs \<Rightarrow> error + 'sp)"
  retriever_init :: "retriever_class \<Rightarrow> (string \<times> ('sp, 'st) arg) list \<Rightarrow> error + retriever_obj"
  import_class :: "string \<Rightarrow> error + 'p"
  load_qa_chain :: "'llm \<Rightarrow> string \<Rightarrow> 'p option \<Rightarrow> error + chain"

text \<open>
  The attributes of a \<^verbatim>\<open>BishengRAGTool\<close> that \<^verbatim>\<open>retrieval_and_rerank\<close> and \<^verbatim>\<open>run\<close> read.
  (\<^verbatim>\<open>vector_store\<close>, \<^verbatim>\<open>keyword_store\<close> and \<^verbatim>\<open>llm\<close> are only handed on to the collaborators.)
  \<open>retriever\<close> is the \<^verbatim>\<open>get_relevant_documents\<close> method of \<^verbatim>\<open>self.retriever\<close>.
\<close>

record tool =
  collection_name :: string
  params :: params
  retriever :: "string \<Rightarrow> string \<Rightarrow> error + doc list"
  qa_chain :: chain

subsection \<open>The budget cutoff of \<^verbatim>\<open>retrieval_and_rerank\<close>\<close>

text \<open>
  \<^verbatim>\<open>
  doc_num, doc_content_sum = 0, 0
  for doc in docs:
      doc_content_sum += len(doc.page_content)
      if doc_content_sum > self.params['generate']['max_content']:
          break
      doc_num += 1
  docs = docs[:doc_num]
  \<close>
  The loop is a recursion over the remaining documents that carries \<open>doc_num\<close> and
  \<open>doc_content_sum\<close> and returns the final \<open>doc_num\<close>; \<open>mc\<close> is the configured
  \<^verbatim>\<open>max_content\<close>.
\<close>

fun count_docs :: "int \<Rightarrow> doc list \<Rightarrow> nat \<Rightarrow> int \<Rightarrow> nat" where
  "count_docs mc [] doc_num doc_content_sum = doc_num"
| "count_docs mc (d # ds) doc_num doc_content_sum =
     (let doc_content_sum' = doc_content_sum + int (length (page_content d))
      in if doc_content_sum' > mc then doc_num
         else count_docs mc ds (doc_num + 1) doc_content_sum')"

definition delete_redundancy :: "int \<Rightarrow> doc list \<Rightarrow> doc list" where
  "delete_redundancy mc docs = take (count_docs mc docs 0 0) docs"

text \<open>The sum of the content lengths of a list of chunks.\<close>

definition content_sum :: "doc list \<Rightarrow> int" where
  "content_sum ds = (\<Sum>d\<leftarrow>ds. int (length (page_content d)))"

subsection \<open>The reorder of \<^verbatim>\<open>retrieval_and_rerank\<close>\<close>

text \<open>
  \<^verbatim>\<open>lambda x: (x.metadata['source'], x.metadata['chunk_index'])\<close>: the subscripts are
  evaluated left to right and a missing key raises \<open>KeyError\<close>.
\<close>

definition sort_key_lambda :: "doc \<Rightarrow> error + (string \<times> int)" where
  "sort_key_lambda x =
     (case source (metadata x) of
        None \<Rightarrow> Inl (KeyError ''source'')
      | Some s \<Rightarrow>
          (case chunk_index (metadata x) of
             None \<Rightarrow> Inl (KeyError ''chunk_index'')
           | Some i \<Rightarrow> Inr (s, i)))"

text \<open>
  Python's \<^verbatim>\<open>sorted(xs, key=f)\<close> first calls \<open>f\<close> on every element, in order (the first
  exception ends the call), then sorts stably by the keys. Tuples and strings compare
  lexicographically, which is the order of \<open>string \<times> int\<close> here. A stable sort by a
  total order has one result, the one \<open>sort_key\<close> computes.
\<close>

fun compute_keys :: "('a \<Rightarrow> error + 'k) \<Rightarrow> 'a list \<Rightarrow> error + ('k \<times> 'a) list" where
  "compute_keys key [] = Inr []"
| "compute_keys key (x # xs) =
     (case key x of
        Inl e \<Rightarrow> Inl e
      | Inr k \<Rightarrow>
          (case compute_keys key xs of
             Inl e \<Rightarrow> Inl e
           | Inr kxs \<Rightarrow> Inr ((k, x) # kxs)))"

definition sorted_py :: "('a \<Rightarrow> error + 'k::linorder) \<Rightarrow> 'a list \<Rightarrow> error + 'a list" where
  "sorted_py key xs =
     (case compute_keys key xs of
        Inl e \<Rightarrow> Inl e
      | Inr kxs \<Rightarrow> Inr (map snd (sort_key fst kxs)))"

subsection \<open>\<^verbatim>\<open>retrieval_and_rerank\<close>, \<^verbatim>\<open>run\<close> and \<^verbatim>\<open>arun\<close>\<close>

text \<open>\<^verbatim>\<open>self.params['post_retrieval'].get('sort_by_source_and_index', False)\<close>.\<close>

definition sort_enabled :: "params \<Rightarrow> bool" where
  "sort_enabled p = (case sort_by_source_and_index p of None \<Rightarrow> False | Some b \<Rightarrow> b)"

definition retrieval_and_rerank :: "tool \<Rightarrow> string \<Rightarrow> error + doc list" where
  "retrieval_and_rerank self query =
     (case retriever self query (collection_name self) of
        Inl e \<Rightarrow> Inl e
      | Inr docs \<Rightarrow>
          (let docs' = delete_redundancy (max_content (params self)) docs
           in if sort_enabled (params self)
              then sorted_py sort_key_lambda docs'
              else Inr docs'))"

text \<open>
  The names bound at module level (the imports and the two classes) and the names bound
  in \<^verbatim>\<open>run\<close> when its \<^verbatim>\<open>except\<close> block executes, with the text each formats to
  (\<open>[]\<close> for objects whose text plays no role).
\<close>

definition module_names :: "string list" where
  "module_names =
     [''time'', ''os'', ''yaml'', ''Any'', ''Dict'', ''Tuple'', ''Type'', ''Union'',
      ''logger'', ''BaseTool'', ''Tool'', ''BaseModel'', ''Extra'', ''Field'',
      ''root_validator'', ''LanguageModelLike'', ''load_qa_chain'', ''EnsembleRetriever'',
      ''ElasticKeywordsSearch'', ''Milvus'', ''BaselineVectorRetriever'',
      ''KeywordRetriever'', ''MixRetriever'', ''SmallerChunksVectorRetriever'',
      ''import_by_type'', ''import_class'', ''MultArgsSchemaTool'', ''BishengRAGTool'']"

definition handler_scope :: "string \<Rightarrow> error \<Rightarrow> (string \<times> string) list" where
  "handler_scope query e =
     [(''self'', []), (''query'', query), (''docs'', []), (''e'', str_error e)]
       @ map (\<lambda>n. (n, [])) module_names"

text \<open>
  \<^verbatim>\<open>f'question: {question}\nerror: {e}'\<close>, the argument of \<^verbatim>\<open>logger.error\<close> in the handler:
  each name is looked up in the scope, and an unbound name raises \<open>NameError\<close>.
\<close>

definition error_message :: "(string \<times> string) list \<Rightarrow> error + string" where
  "error_message scope =
     (case map_of scope ''question'' of
        None \<Rightarrow> Inl (NameError ''question'')
      | Some q \<Rightarrow>
          (case map_of scope ''e'' of
             None \<Rightarrow> Inl (NameError ''e'')
           | Some m \<Rightarrow> Inr (''question: '' @ q @ [CHR 0x0A] @ ''error: '' @ m)))"

text \<open>
  \<^verbatim>\<open>
  docs = self.retrieval_and_rerank(query)
  try:
      ans = self.qa_chain({"input_documents": docs, "question": query}, return_only_outputs=True)
  except Exception as e:
      logger.error(f'question: {question}\nerror: {e}')
      ans = {'output_text': str(e)}
  rag_answer = ans['output_text']
  return rag_answer
  \<close>
  The call of \<^verbatim>\<open>retrieval_and_rerank\<close> is outside the \<^verbatim>\<open>try\<close>; an exception raised
  inside the handler leaves \<^verbatim>\<open>run\<close>.
\<close>

definition run :: "tool \<Rightarrow> string \<Rightarrow> error + string" where
  "run self query =
     (case retrieval_and_rerank self query of
        Inl e \<Rightarrow> Inl e
      | Inr docs \<Rightarrow>
          (case (case qa_chain self docs query of
                   Inr ans \<Rightarrow> Inr ans
                 | Inl e \<Rightarrow>
                     (case error_message (handler_scope query e) of
                        Inl e' \<Rightarrow> Inl e'
                      | Inr logged \<Rightarrow> Inr [(''output_text'', str_error e)])) of
             Inl e \<Rightarrow> Inl e
           | Inr ans \<Rightarrow>
               (case map_of ans ''output_text'' of
                  None \<Rightarrow> Inl (KeyError ''output_text'')
                | Some rag_answer \<Rightarrow> Inr rag_answer)))"

text \<open>
  \<^verbatim>\<open>async def arun\<close>: the value the coroutine gives when awaited, or the exception it
  raises.
\<close>

definition arun :: "tool \<Rightarrow> string \<Rightarrow> error + string" where
  "arun self query = (let rag_answer = run self query in rag_answer)"

subsection \<open>Construction: \<^verbatim>\<open>_post_init_retriever\<close> and \<^verbatim>\<open>__init__\<close>\<close>

definition retriever_classes :: "(string \<times> retriever_class) list" where
  "retriever_classes =
     [(''KeywordRetriever'', KeywordRetriever),
      (''BaselineVectorRetriever'', BaselineVectorRetriever),
      (''MixRetriever'', MixRetriever),
      (''SmallerChunksVectorRetriever'', SmallerChunksVectorRetriever)]"

text \<open>
  \<^verbatim>\<open>
  for key, value in splitter_params.items():
      splitter_obj = import_by_type(_type='textsplitters', name=value.pop('type'))
      input_kwargs[key] = splitter_obj(**value)
  \<close>
  An assignment to a dictionary key replaces the value in place or appends the key, which
  is \<open>AList.update\<close>.
\<close>

fun build_splitters ::
  "('sp, 'st, 'llm, 'p) collaborators \<Rightarrow> (string \<times> kwargs) list
     \<Rightarrow> (string \<times> ('sp, 'st) arg) list \<Rightarrow> error + (string \<times> ('sp, 'st) arg) list" where
  "build_splitters C [] input_kwargs = Inr input_kwargs"
| "build_splitters C ((key, value) # rest) input_kwargs =
     (case map_of value ''type'' of
        None \<Rightarrow> Inl (KeyError ''type'')
      | Some name \<Rightarrow>
          (case import_by_type C name of
             Inl e \<Rightarrow> Inl e
           | Inr splitter_obj \<Rightarrow>
               (case splitter_obj (AList.delete ''type'' value) of
                  Inl e \<Rightarrow> Inl e
                | Inr sp \<Rightarrow>
                    build_splitters C rest (AList.update key (SplitterArg sp) input_kwargs))))"

text \<open>
  \<^verbatim>\<open>_post_init_retriever\<close>, called with the four keyword arguments \<^verbatim>\<open>__init__\<close> always
  passes. The membership test on \<^verbatim>\<open>retriever_classes\<close> comes first and raises
  \<open>ValueError\<close>; the class is looked up at the end.
\<close>

definition post_init_retriever ::
  "('sp, 'st, 'llm, 'p) collaborators \<Rightarrow> string \<Rightarrow> 'st \<Rightarrow> 'st
     \<Rightarrow> (string \<times> kwargs) list \<Rightarrow> kwargs \<Rightarrow> error + retriever_obj" where
  "post_init_retriever C retriever_type vector_store keyword_store splitter_kwargs retrieval_kwargs =
     (if map_of retriever_classes retriever_type = None
      then Inl (ValueError (''Unknown retriever type: '' @ retriever_type))
      else
        (case build_splitters C splitter_kwargs [] of
           Inl e \<Rightarrow> Inl e
         | Inr input_kwargs \<Rightarrow>
             (let input_kwargs1 =
                    fold (\<lambda>(key, value). AList.update key (ValueArg value))
                      retrieval_kwargs input_kwargs;
                  input_kwargs2 = AList.update ''vector_store'' (StoreArg vector_store) input_kwargs1;
                  input_kwargs3 = AList.update ''keyword_store'' (StoreArg keyword_store) input_kwargs2
              in case map_of retriever_classes retriever_type of
                   None \<Rightarrow> Inl (KeyError retriever_type)
                 | Some retriever_class \<Rightarrow> retriever_init C retriever_class input_kwargs3)))"

text \<open>
  The loop of \<^verbatim>\<open>__init__\<close> over \<^verbatim>\<open>self.params['retriever']['retrievers']\<close>, which appends
  each constructed retriever to \<^verbatim>\<open>retriever_list\<close>; the first exception ends it.
\<close>

fun init_retrievers ::
  "('sp, 'st, 'llm, 'p) collaborators \<Rightarrow> 'st \<Rightarrow> 'st \<Rightarrow> retriever_config list
     \<Rightarrow> retriever_obj list \<Rightarrow> error + retriever_obj list" where
  "init_retrievers C vector_store keyword_store [] retriever_list = Inr retriever_list"
| "init_retrievers C vector_store keyword_store (r # rest) retriever_list =
     (case post_init_retriever C (rtype r) vector_store keyword_store (splitter r) (retrieval r) of
        Inl e \<Rightarrow> Inl e
      | Inr obj \<Rightarrow>
          init_retrievers C vector_store keyword_store rest (retriever_list @ [obj]))"

subsection \<open>The ensemble retriever\<close>

text \<open>
  Modelled from the spec: \<^verbatim>\<open>EnsembleRetriever\<close> of \<^verbatim>\<open>bisheng_langchain.retrievers\<close> is
  imported by the file and its code is not part of the sources at hand. What follows is
  the Fusion Engine as the specification words it: every retriever is invoked with the
  same query and collection; the returned sequences are concatenated in configuration
  order, each keeping its own order, every chunk tagged with the strategy that produced
  it; chunks are deduplicated by the identity \<open>(source, chunk_index)\<close>, keeping the
  first one seen; a retriever that fails is dropped and the rest continue, unless all
  retrievers are required, in which case the failure propagates.
\<close>

definition identity :: "doc \<Rightarrow> string option \<times> int option" where
  "identity d = (source (metadata d), chunk_index (metadata d))"

definition tag_origin :: "retriever_class \<Rightarrow> doc \<Rightarrow> doc" where
  "tag_origin c d = d\<lparr>metadata := (metadata d)\<lparr>origin_retriever := Some c\<rparr>\<rparr>"

fun dedup :: "(string option \<times> int option) list \<Rightarrow> doc list \<Rightarrow> doc list" where
  "dedup seen [] = []"
| "dedup seen (d # ds) =
     (if identity d \<in> set seen then dedup seen ds
      else d # dedup (identity d # seen) ds)"

definition contribution :: "retriever_obj \<Rightarrow> string \<Rightarrow> string \<Rightarrow> doc list" where
  "contribution r query collection =
     (case retrieve r query collection of
        Inl e \<Rightarrow> []
      | Inr ds \<Rightarrow> map (tag_origin (strategy r)) ds)"

definition candidates :: "retriever_obj list \<Rightarrow> string \<Rightarrow> string \<Rightarrow> doc list" where
  "candidates rs query collection = concat (map (\<lambda>r. contribution r query collection) rs)"

fun first_failure :: "retriever_obj list \<Rightarrow> string \<Rightarrow> string \<Rightarrow> error option" where
  "first_failure [] query collection = None"
| "first_failure (r # rs) query collection =
     (case retrieve r query collection of
        Inl e \<Rightarrow> Some e
      | Inr ds \<Rightarrow> first_failure rs query collection)"

definition fuse :: "bool \<Rightarrow> retriever_obj list \<Rightarrow> string \<Rightarrow> string \<Rightarrow> error + doc list" where
  "fuse require_all rs query collection =
     (case (if require_all then first_failure rs query collection else None) of
        Some e \<Rightarrow> Inl e
      | None \<Rightarrow> Inr (dedup [] (candidates rs query collection)))"

text \<open>
  \<^verbatim>\<open>EnsembleRetriever(retrievers=retriever_list)\<close> and its \<^verbatim>\<open>get_relevant_documents\<close>, under
  the default policy (graceful degradation).
\<close>

definition EnsembleRetriever :: "retriever_obj list \<Rightarrow> string \<Rightarrow> string \<Rightarrow> error + doc list" where
  "EnsembleRetriever retriever_list = fuse False retriever_list"

text \<open>
  \<^verbatim>\<open>__init__\<close>, from the loaded \<^verbatim>\<open>self.params\<close> on: the retrievers, the ensemble, the
  prompt (when \<^verbatim>\<open>prompt_type\<close> is configured) and the chain.
\<close>

definition BishengRAGTool_init ::
  "('sp, 'st, 'llm, 'p) collaborators \<Rightarrow> 'st \<Rightarrow> 'st \<Rightarrow> 'llm \<Rightarrow> string \<Rightarrow> params
     \<Rightarrow> error + tool" where
  "BishengRAGTool_init C vector_store keyword_store llm collection ps =
     (case init_retrievers C vector_store keyword_store (retrievers ps) [] of
        Inl e \<Rightarrow> Inl e
      | Inr retriever_list \<Rightarrow>
          (case (case prompt_type ps of
                   None \<Rightarrow> Inr None
                 | Some pt \<Rightarrow>
                     (case import_class C (''bisheng_langchain.rag.prompts.'' @ pt) of
                        Inl e \<Rightarrow> Inl e
                      | Inr prompt \<Rightarrow> Inr (Some prompt))) of
             Inl e \<Rightarrow> Inl e
           | Inr prompt \<Rightarrow>
               (case load_qa_chain C llm (chain_type ps) prompt of
                  Inl e \<Rightarrow> Inl e
                | Inr c \<Rightarrow>
                    Inr \<lparr>collection_name = collection,
                         params = ps,
                         retriever = EnsembleRetriever retriever_list,
                         qa_chain = c\<rparr>)))"

text \<open>A chunk with content of a given length, for the concrete scenarios.\<close>

definition chunk :: "string \<Rightarrow> int \<Rightarrow> nat \<Rightarrow> doc" where
  "chunk src idx n =
     \<lparr>page_content = replicate n CHR ''x'',
      metadata = \<lparr>source = Some src, chunk_index = Some idx, origin_retriever = None\<rparr>\<rparr>"

text \<open>
  Collaborators for the concrete scenarios: a retriever that returns a fixed list, a
  chain that answers, a chain that raises.
\<close>

definition fixed_retriever :: "doc list \<Rightarrow> string \<Rightarrow> string \<Rightarrow> error + doc list" where
  "fixed_retriever docs query collection = Inr docs"

definition answering_chain :: chain where
  "answering_chain docs question = Inr [(''output_text'', ''answer'')]"

definition failing_chain :: chain where
  "failing_chain docs question = Inl (ExternalError ''timeout'')"

definition scenario_tool :: "int \<Rightarrow> bool option \<Rightarrow> doc list \<Rightarrow> chain \<Rightarrow> tool" where
  "scenario_tool mc flag docs c =
     \<lparr>collection_name = ''collection'',
      params = \<lparr>retrievers = [], prompt_type = None, chain_type = ''stuff'',
                max_content = mc, sort_by_source_and_index = flag\<rparr>,
      retriever = fixed_retriever docs,
      qa_chain = c\<rparr>"

text \<open>
  Collaborators of the construction for the concrete scenarios, all succeeding, and
  retrievers with a fixed outcome.
\<close>

definition scenario_collaborators :: "(string, string, unit, string) collaborators" where
  "scenario_collaborators =
     \<lparr>import_by_type = (\<lambda>name. Inr (\<lambda>kw. Inr name)),
      retriever_init = (\<lambda>c kw. Inr \<lparr>strategy = c, retrieve = (\<lambda>q col. Inr [])\<rparr>),
      import_class = (\<lambda>name. Inr name),
      load_qa_chain = (\<lambda>llm ct prompt. Inr answering_chain)\<rparr>"

definition returning :: "retriever_class \<Rightarrow> doc list \<Rightarrow> retriever_obj" where
  "returning c ds = \<lparr>strategy = c, retrieve = (\<lambda>q col. Inr ds)\<rparr>"

definition raising :: "retriever_class \<Rightarrow> error \<Rightarrow> retriever_obj" where
  "raising c e = \<lparr>strategy = c, retrieve = (\<lambda>q col. Inl e)\<rparr>"

subsection \<open>Properties of the budget cutoff\<close>

lemma count_docs_ge: "doc_num \<le> count_docs mc ds doc_num s"
proof (induction ds arbitrary: doc_num s)
  case Nil
  show ?case by simp
next
  case (Cons d ds)
  have "doc_num + 1 \<le> count_docs mc ds (doc_num + 1) (s + int (length (page_content d)))"
    by (rule Cons.IH)
  then show ?case by (simp add: Let_def)
qed

lemma count_docs_le: "count_docs mc ds doc_num s \<le> doc_num + length ds"
proof (induction ds arbitrary: doc_num s)
  case Nil
  show ?case by simp
next
  case (Cons d ds)
  have "count_docs mc ds (doc_num + 1) (s + int (length (page_content d)))
          \<le> (doc_num + 1) + length ds"
    by (rule Cons.IH)
  then show ?case by (simp add: Let_def)
qed

lemma count_docs_shift:
  "count_docs mc ds (doc_num + k) s = count_docs mc ds doc_num s + k"
proof (induction ds arbitrary: doc_num s)
  case Nil
  show ?case by simp
next
  case (Cons d ds)
  have "count_docs mc ds ((doc_num + 1) + k) (s + int (length (page_content d)))
          = count_docs mc ds (doc_num + 1) (s + int (length (page_content d))) + k"
    by (rule Cons.IH)
  then show ?case by (simp add: Let_def add.commute add.left_commute)
qed

text \<open>The running sum at the break, written on the list alone.\<close>

lemma count_docs_sum:
  "s \<le> mc \<Longrightarrow>
   s + content_sum (take (count_docs mc ds 0 s) ds) \<le> mc"
proof (induction ds arbitrary: s)
  case Nil
  then show ?case by (simp add: content_sum_def)
next
  case (Cons d ds)
  let ?s' = "s + int (length (page_content d))"
  show ?case
  proof (cases "?s' > mc")
    case True
    then show ?thesis using Cons.prems by (simp add: Let_def content_sum_def)
  next
    case False
    then have le: "?s' \<le> mc" by simp
    have sh: "count_docs mc ds (0 + 1) ?s' = count_docs mc ds 0 ?s' + 1"
      by (rule count_docs_shift)
    have "?s' + content_sum (take (count_docs mc ds 0 ?s') ds) \<le> mc"
      by (rule Cons.IH [OF le])
    then show ?thesis using False sh by (simp add: Let_def content_sum_def)
  qed
qed

lemma count_docs_stop:
  "count_docs mc ds 0 s < length ds \<Longrightarrow>
   s + content_sum (take (count_docs mc ds 0 s) ds)
     + int (length (page_content (ds ! count_docs mc ds 0 s))) > mc"
proof (induction ds arbitrary: s)
  case Nil
  then show ?case by simp
next
  case (Cons d ds)
  let ?s' = "s + int (length (page_content d))"
  show ?case
  proof (cases "?s' > mc")
    case True
    then show ?thesis by (simp add: Let_def content_sum_def)
  next
    case False
    have sh: "count_docs mc ds (0 + 1) ?s' = count_docs mc ds 0 ?s' + 1"
      by (rule count_docs_shift)
    from Cons.prems False sh have "count_docs mc ds 0 ?s' < length ds"
      by (simp add: Let_def)
    then have "?s' + content_sum (take (count_docs mc ds 0 ?s') ds)
        + int (length (page_content (ds ! count_docs mc ds 0 ?s'))) > mc"
      by (rule Cons.IH)
    then show ?thesis using False sh by (simp add: Let_def content_sum_def)
  qed
qed

lemma length_delete_redundancy:
  "length (delete_redundancy mc docs) = count_docs mc docs 0 0"
  using count_docs_le [of mc docs 0 0] by (simp add: delete_redundancy_def)

lemma delete_redundancy_sum:
  "0 \<le> mc \<Longrightarrow> content_sum (delete_redundancy mc docs) \<le> mc"
  using count_docs_sum [of 0 mc docs] by (simp add: delete_redundancy_def)

lemma delete_redundancy_stop:
  assumes "length (delete_redundancy mc docs) < length docs"
  shows "content_sum (delete_redundancy mc docs)
           + int (length (page_content (docs ! length (delete_redundancy mc docs)))) > mc"
proof -
  have "count_docs mc docs 0 0 < length docs"
    using assms by (simp only: length_delete_redundancy)
  from count_docs_stop [OF this] show ?thesis
    by (simp add: length_delete_redundancy) (simp add: delete_redundancy_def)
qed

text \<open>The chunks of empty content at the front of a list.\<close>

lemma count_docs_leading_empty:
  "0 \<le> mc \<Longrightarrow>
   length (takeWhile (\<lambda>d. page_content d = []) ds) \<le> count_docs mc ds 0 0"
proof (induction ds)
  case Nil
  show ?case by simp
next
  case (Cons d ds)
  show ?case
  proof (cases "page_content d = []")
    case True
    have sh: "count_docs mc ds (0 + 1) 0 = count_docs mc ds 0 0 + 1"
      by (rule count_docs_shift)
    from Cons True sh show ?thesis by (simp add: Let_def)
  next
    case False
    then show ?thesis by simp
  qed
qed

lemma count_docs_zero_budget:
  "count_docs 0 ds 0 0 = length (takeWhile (\<lambda>d. page_content d = []) ds)"
proof (induction ds)
  case Nil
  show ?case by simp
next
  case (Cons d ds)
  show ?case
  proof (cases "page_content d = []")
    case True
    have sh: "count_docs 0 ds (0 + 1) 0 = count_docs 0 ds 0 0 + 1"
      by (rule count_docs_shift)
    from Cons True sh show ?thesis by (simp add: Let_def)
  next
    case False
    then show ?thesis by (simp add: Let_def)
  qed
qed

lemma delete_redundancy_zero_budget:
  "delete_redundancy 0 docs = takeWhile (\<lambda>d. page_content d = []) docs"
proof -
  have "takeWhile (\<lambda>d. page_content d = []) docs
          = take (length (takeWhile (\<lambda>d. page_content d = []) docs)) docs"
    by (rule takeWhile_eq_take)
  then show ?thesis
    by (simp only: delete_redundancy_def count_docs_zero_budget)
qed

lemma content_sum_leading_empty:
  "content_sum (takeWhile (\<lambda>d. page_content d = []) docs) = 0"
  by (induction docs) (simp_all add: content_sum_def)

lemma delete_redundancy_negative_budget:
  "mc < 0 \<Longrightarrow> delete_redundancy mc docs = []"
  by (cases docs) (simp_all add: delete_redundancy_def Let_def)

lemma content_sum_nonneg: "0 \<le> content_sum ds"
  by (induction ds) (simp_all add: content_sum_def)

lemma content_sum_Cons:
  "content_sum (d # ds) = int (length (page_content d)) + content_sum ds"
  by (simp add: content_sum_def)

lemma count_docs_includes:
  "i < length ds \<Longrightarrow> s + content_sum (take (Suc i) ds) \<le> mc \<Longrightarrow>
   i < count_docs mc ds 0 s"
proof (induction ds arbitrary: i s)
  case Nil
  then show ?case by simp
next
  case (Cons d ds)
  let ?s' = "s + int (length (page_content d))"
  have sum: "?s' + content_sum (take i ds) \<le> mc"
    using Cons.prems(2) by (simp add: content_sum_Cons)
  have "0 \<le> content_sum (take i ds)" by (rule content_sum_nonneg)
  with sum have le: "\<not> ?s' > mc" by linarith
  have sh: "count_docs mc ds (0 + 1) ?s' = count_docs mc ds 0 ?s' + 1"
    by (rule count_docs_shift)
  show ?case
  proof (cases i)
    case 0
    with le sh show ?thesis by (simp add: Let_def)
  next
    case (Suc j)
    with Cons.prems(1) have j: "j < length ds" by simp
    from sum Suc have "?s' + content_sum (take (Suc j) ds) \<le> mc" by simp
    with j have "j < count_docs mc ds 0 ?s'" by (rule Cons.IH)
    with le sh Suc show ?thesis by (simp add: Let_def)
  qed
qed

lemma content_sum_take_Suc:
  "i < length ds \<Longrightarrow>
   content_sum (take (Suc i) ds) = content_sum (take i ds) + int (length (page_content (ds ! i)))"
  by (simp add: take_Suc_conv_app_nth content_sum_def)

lemma delete_redundancy_includes_empty:
  assumes "i < length docs" and "page_content (docs ! i) = []"
      and "content_sum (take i docs) \<le> mc"
  shows "i < length (delete_redundancy mc docs)"
proof -
  have "content_sum (take (Suc i) docs) = content_sum (take i docs)"
    using assms(1,2) by (simp add: content_sum_take_Suc)
  with assms(3) have "0 + content_sum (take (Suc i) docs) \<le> mc" by simp
  with assms(1) have "i < count_docs mc docs 0 0" by (rule count_docs_includes)
  then show ?thesis by (simp only: length_delete_redundancy)
qed

lemma delete_redundancy_stops_nonempty:
  assumes "0 \<le> mc" and "length (delete_redundancy mc docs) < length docs"
  shows "page_content (docs ! length (delete_redundancy mc docs)) \<noteq> []"
proof -
  have "content_sum (delete_redundancy mc docs) \<le> mc"
    using assms(1) by (rule delete_redundancy_sum)
  moreover have "content_sum (delete_redundancy mc docs)
         + int (length (page_content (docs ! length (delete_redundancy mc docs)))) > mc"
    using assms(2) by (rule delete_redundancy_stop)
  ultimately have "0 < length (page_content (docs ! length (delete_redundancy mc docs)))"
    by linarith
  then show ?thesis by simp
qed

lemma delete_redundancy_leading_empty:
  assumes "0 \<le> mc"
  shows "prefix (takeWhile (\<lambda>d. page_content d = []) docs) (delete_redundancy mc docs)"
proof -
  let ?zs = "takeWhile (\<lambda>d. page_content d = []) docs"
  have le: "length ?zs \<le> count_docs mc docs 0 0"
    using assms by (rule count_docs_leading_empty)
  have "?zs = take (length ?zs) docs" by (rule takeWhile_eq_take)
  also have "\<dots> = take (length ?zs) (take (count_docs mc docs 0 0) docs)"
    using le by (simp add: min_def)
  finally have "?zs = take (length ?zs) (delete_redundancy mc docs)"
    by (simp only: delete_redundancy_def)
  then show ?thesis by (metis take_is_prefix)
qed

lemma delete_redundancy_prefix: "prefix (delete_redundancy mc docs) docs"
  by (simp add: delete_redundancy_def take_is_prefix)

lemma retrieval_and_rerank_unsorted:
  "retriever self query (collection_name self) = Inr docs \<Longrightarrow>
   \<not> sort_enabled (params self) \<Longrightarrow>
   retrieval_and_rerank self query = Inr (delete_redundancy (max_content (params self)) docs)"
  by (simp add: retrieval_and_rerank_def)

text \<open>
  C1. For every fused candidate list the retriever returns and every \<^verbatim>\<open>max_content\<close>,
  the context \<^verbatim>\<open>retrieval_and_rerank\<close> returns before any reorder (the flag unset) is a
  prefix of the fused list: every chunk in it is a whole candidate, in fused order. With
  a budget \<open>max_content \<ge> 0\<close> (the data model's invariant) the content lengths of its
  chunks sum to at most \<open>max_content\<close>; with a negative budget it is empty. When a
  candidate is left out, the first one left out is the one whose length would push the
  running sum past \<open>max_content\<close>: the walk stops there and nothing behind it is taken.
\<close>

theorem budget_cutoff_prefix:
  assumes "retriever self query (collection_name self) = Inr docs"
      and "\<not> sort_enabled (params self)"
  shows "\<exists>ctx. retrieval_and_rerank self query = Inr ctx
    \<and> prefix ctx docs
    \<and> (0 \<le> max_content (params self) \<longrightarrow> content_sum ctx \<le> max_content (params self))
    \<and> (max_content (params self) < 0 \<longrightarrow> ctx = [])
    \<and> (length ctx < length docs \<longrightarrow>
         content_sum ctx + int (length (page_content (docs ! length ctx)))
           > max_content (params self))"
proof -
  let ?mc = "max_content (params self)"
  let ?ctx = "delete_redundancy ?mc docs"
  have r: "retrieval_and_rerank self query = Inr ?ctx"
    using assms by (rule retrieval_and_rerank_unsorted)
  have p: "prefix ?ctx docs" by (rule delete_redundancy_prefix)
  have s: "0 \<le> ?mc \<longrightarrow> content_sum ?ctx \<le> ?mc"
    using delete_redundancy_sum by blast
  have n: "?mc < 0 \<longrightarrow> ?ctx = []"
    using delete_redundancy_negative_budget by blast
  have st: "length ?ctx < length docs \<longrightarrow>
         content_sum ?ctx + int (length (page_content (docs ! length ?ctx))) > ?mc"
    using delete_redundancy_stop by blast
  from r p s n st show ?thesis by blast
qed

text \<open>
  The scenario of three chunks of 300 characters and a budget of 500: only the first
  survives, and the second is the one that would exceed the budget.
\<close>

theorem budget_cutoff_prefix_witness:
  "retrieval_and_rerank
     (scenario_tool 500 None [chunk ''A'' 0 300, chunk ''A'' 1 300, chunk ''B'' 0 300]
        answering_chain) ''what is it''
     = Inr [chunk ''A'' 0 300]
   \<and> prefix [chunk ''A'' 0 300] [chunk ''A'' 0 300, chunk ''A'' 1 300, chunk ''B'' 0 300]
   \<and> content_sum [chunk ''A'' 0 300] \<le> 500
   \<and> 500 < content_sum [chunk ''A'' 0 300]
        + int (length (page_content ([chunk ''A'' 0 300, chunk ''A'' 1 300, chunk ''B'' 0 300]
            ! length [chunk ''A'' 0 300])))"
  using budget_cutoff_prefix
    [of "scenario_tool 500 None [chunk ''A'' 0 300, chunk ''A'' 1 300, chunk ''B'' 0 300]
        answering_chain" "''what is it''"
        "[chunk ''A'' 0 300, chunk ''A'' 1 300, chunk ''B'' 0 300]"]
  by (simp add: retrieval_and_rerank_def scenario_tool_def fixed_retriever_def
      sort_enabled_def delete_redundancy_def chunk_def content_sum_def)

text \<open>
  C9. In the context \<^verbatim>\<open>retrieval_and_rerank\<close> returns before any reorder, a chunk of empty
  content never triggers the cutoff: with a budget \<open>max_content \<ge> 0\<close> the candidate at
  which the walk stops has non-empty content. A chunk of empty content is kept whenever
  the chunks in front of it fit the budget, that is, whenever it precedes the first
  candidate that exceeds the budget, wherever in the list it stands. In particular the
  chunks of empty content at the front of the fused list are kept, and with
  \<open>max_content = 0\<close> they are exactly what is kept.
\<close>

theorem zero_length_never_cuts:
  assumes "retriever self query (collection_name self) = Inr docs"
      and "\<not> sort_enabled (params self)"
  shows "\<exists>ctx. retrieval_and_rerank self query = Inr ctx
    \<and> prefix ctx docs
    \<and> (0 \<le> max_content (params self) \<longrightarrow> length ctx < length docs \<longrightarrow>
          page_content (docs ! length ctx) \<noteq> [])
    \<and> (\<forall>i < length docs.
          page_content (docs ! i) = [] \<longrightarrow>
          content_sum (take i docs) \<le> max_content (params self) \<longrightarrow>
          i < length ctx \<and> ctx ! i = docs ! i)
    \<and> (0 \<le> max_content (params self) \<longrightarrow>
          prefix (takeWhile (\<lambda>d. page_content d = []) docs) ctx)
    \<and> (max_content (params self) = 0 \<longrightarrow>
          ctx = takeWhile (\<lambda>d. page_content d = []) docs)"
proof -
  let ?mc = "max_content (params self)"
  let ?ctx = "delete_redundancy ?mc docs"
  have r: "retrieval_and_rerank self query = Inr ?ctx"
    using assms by (rule retrieval_and_rerank_unsorted)
  have p: "prefix ?ctx docs" by (rule delete_redundancy_prefix)
  have a: "0 \<le> ?mc \<longrightarrow> length ?ctx < length docs \<longrightarrow>
          page_content (docs ! length ?ctx) \<noteq> []"
    using delete_redundancy_stops_nonempty by blast
  have b: "\<forall>i < length docs.
          page_content (docs ! i) = [] \<longrightarrow>
          content_sum (take i docs) \<le> ?mc \<longrightarrow>
          i < length ?ctx \<and> ?ctx ! i = docs ! i"
  proof (intro allI impI)
    fix i
    assume "i < length docs" "page_content (docs ! i) = []" "content_sum (take i docs) \<le> ?mc"
    then have lt: "i < length ?ctx" by (rule delete_redundancy_includes_empty)
    then have "i < count_docs ?mc docs 0 0" by (simp only: length_delete_redundancy)
    then have "?ctx ! i = docs ! i" by (simp add: delete_redundancy_def)
    with lt show "i < length ?ctx \<and> ?ctx ! i = docs ! i" by blast
  qed
  have c: "0 \<le> ?mc \<longrightarrow> prefix (takeWhile (\<lambda>d. page_content d = []) docs) ?ctx"
    using delete_redundancy_leading_empty by blast
  have d: "?mc = 0 \<longrightarrow> ?ctx = takeWhile (\<lambda>d. page_content d = []) docs"
    by (simp add: delete_redundancy_zero_budget)
  from r p a b c d show ?thesis by blast
qed

text \<open>
  A chunk of empty content behind a chunk within the budget is kept, one behind the
  chunk that exceeds the budget is not; and the budget 0.
\<close>

theorem zero_length_never_cuts_witness:
  "retrieval_and_rerank
     (scenario_tool 10 None [chunk ''A'' 0 5, chunk ''A'' 1 0, chunk ''B'' 0 20, chunk ''B'' 1 0]
        answering_chain) ''what is it''
     = Inr [chunk ''A'' 0 5, chunk ''A'' 1 0]
   \<and> page_content ([chunk ''A'' 0 5, chunk ''A'' 1 0, chunk ''B'' 0 20, chunk ''B'' 1 0] ! 1) = []
   \<and> content_sum (take 1 [chunk ''A'' 0 5, chunk ''A'' 1 0, chunk ''B'' 0 20, chunk ''B'' 1 0]) \<le> 10
   \<and> page_content ([chunk ''A'' 0 5, chunk ''A'' 1 0, chunk ''B'' 0 20, chunk ''B'' 1 0]
        ! length [chunk ''A'' 0 5, chunk ''A'' 1 0]) \<noteq> []
   \<and> retrieval_and_rerank
     (scenario_tool 0 None [chunk ''A'' 0 0, chunk ''A'' 1 0, chunk ''B'' 0 5, chunk ''B'' 1 0]
        answering_chain) ''what is it''
     = Inr [chunk ''A'' 0 0, chunk ''A'' 1 0]"
  using zero_length_never_cuts
    [of "scenario_tool 10 None [chunk ''A'' 0 5, chunk ''A'' 1 0, chunk ''B'' 0 20, chunk ''B'' 1 0]
        answering_chain" "''what is it''"
        "[chunk ''A'' 0 5, chunk ''A'' 1 0, chunk ''B'' 0 20, chunk ''B'' 1 0]"]
    zero_length_never_cuts
    [of "scenario_tool 0 None [chunk ''A'' 0 0, chunk ''A'' 1 0, chunk ''B'' 0 5, chunk ''B'' 1 0]
        answering_chain" "''what is it''"
        "[chunk ''A'' 0 0, chunk ''A'' 1 0, chunk ''B'' 0 5, chunk ''B'' 1 0]"]
  by (simp add: retrieval_and_rerank_def scenario_tool_def fixed_retriever_def
      sort_enabled_def delete_redundancy_def chunk_def content_sum_def)

subsection \<open>Properties of the reorder\<close>

lemma compute_keys_fails:
  "x \<in> set xs \<Longrightarrow> key x = Inl e \<Longrightarrow>
   \<exists>y e'. y \<in> set xs \<and> key y = Inl e' \<and> compute_keys key xs = Inl e'"
proof (induction xs)
  case Nil
  then show ?case by simp
next
  case (Cons a xs)
  show ?case
  proof (cases "key a")
    case (Inl ea)
    then have "a \<in> set (a # xs) \<and> key a = Inl ea \<and> compute_keys key (a # xs) = Inl ea"
      by simp
    then show ?thesis by blast
  next
    case (Inr k)
    with Cons.prems have "x \<in> set xs" by auto
    from Cons.IH [OF this Cons.prems(2)] obtain y e'
      where "y \<in> set xs" "key y = Inl e'" "compute_keys key xs = Inl e'" by blast
    with Inr have "y \<in> set (a # xs) \<and> key y = Inl e' \<and> compute_keys key (a # xs) = Inl e'"
      by simp
    then show ?thesis by blast
  qed
qed

lemma compute_keys_succeeds:
  "\<forall>x \<in> set xs. key x = Inr (k x) \<Longrightarrow> compute_keys key xs = Inr (map (\<lambda>x. (k x, x)) xs)"
  by (induction xs) simp_all

lemma insort_key_decorated:
  "insort_key fst (k x, x) (map (\<lambda>x. (k x, x)) ys) = map (\<lambda>x. (k x, x)) (insort_key k x ys)"
  by (induction ys) simp_all

lemma sort_key_decorated:
  "sort_key fst (map (\<lambda>x. (k x, x)) xs) = map (\<lambda>x. (k x, x)) (sort_key k xs)"
  by (induction xs) (simp_all add: insort_key_decorated)

lemma sorted_py_succeeds:
  assumes "\<forall>x \<in> set xs. key x = Inr (k x)"
  shows "sorted_py key xs = Inr (sort_key k xs)"
proof -
  have "compute_keys key xs = Inr (map (\<lambda>x. (k x, x)) xs)"
    using assms by (rule compute_keys_succeeds)
  then show ?thesis
    by (simp add: sorted_py_def sort_key_decorated comp_def)
qed

lemma sorted_py_fails:
  assumes "x \<in> set xs" and "key x = Inl e"
  shows "\<exists>y e'. y \<in> set xs \<and> key y = Inl e' \<and> sorted_py key xs = Inl e'"
proof -
  from assms compute_keys_fails [of x xs key e] obtain y e'
    where "y \<in> set xs" "key y = Inl e'" "compute_keys key xs = Inl e'" by blast
  then have "y \<in> set xs \<and> key y = Inl e' \<and> sorted_py key xs = Inl e'"
    by (simp add: sorted_py_def)
  then show ?thesis by blast
qed

lemma sort_key_lambda_error:
  "sort_key_lambda x = Inl e \<Longrightarrow> e = KeyError ''source'' \<or> e = KeyError ''chunk_index''"
  by (auto simp: sort_key_lambda_def split: option.splits)

lemma sort_key_lambda_missing:
  "source (metadata x) = None \<or> chunk_index (metadata x) = None \<Longrightarrow>
   \<exists>e. sort_key_lambda x = Inl e"
  by (auto simp: sort_key_lambda_def split: option.splits)

lemma sort_key_lambda_present:
  "source (metadata x) \<noteq> None \<and> chunk_index (metadata x) \<noteq> None \<Longrightarrow>
   sort_key_lambda x = Inr (projr (sort_key_lambda x))"
  by (auto simp: sort_key_lambda_def split: option.splits)

lemma sorted_py_Nil: "sorted_py key [] = Inr []"
  by (simp add: sorted_py_def)

lemma sorted_py_mset: "sorted_py key xs = Inr ys \<Longrightarrow> mset ys = mset xs"
proof -
  assume a: "sorted_py key xs = Inr ys"
  have "\<forall>x \<in> set xs. \<exists>k. key x = Inr k"
  proof (rule ccontr)
    assume "\<not> (\<forall>x \<in> set xs. \<exists>k. key x = Inr k)"
    then obtain x where x: "x \<in> set xs" and "\<forall>k. key x \<noteq> Inr k" by blast
    then obtain e where "key x = Inl e" by (cases "key x") auto
    with x sorted_py_fails [of x xs key e] a show False by auto
  qed
  then have "\<forall>x \<in> set xs. key x = Inr (projr (key x))" by auto
  then have "sorted_py key xs = Inr (sort_key (\<lambda>x. projr (key x)) xs)"
    by (rule sorted_py_succeeds)
  with a show ?thesis by auto
qed

lemma run_chain_answers:
  assumes "retrieval_and_rerank self query = Inr ctx"
      and "qa_chain self ctx query = Inr ans"
      and "map_of ans ''output_text'' = Some a"
  shows "run self query = Inr a"
  using assms by (simp add: run_def)

text \<open>
  C5, as amended. With \<open>max_content = 0\<close> the assembled context is the run of chunks
  of empty content at the front of the fused list (reordered when the flag is set): its
  content lengths sum to 0, and it is empty when there is no candidate or the first
  candidate has content. The chain is called with this context, and when the chain
  returns an answer \<^verbatim>\<open>run\<close> returns it.
\<close>

theorem zero_budget_context:
  assumes "max_content (params self) = 0"
      and "retriever self query (collection_name self) = Inr docs"
  shows "(\<not> sort_enabled (params self) \<longrightarrow>
            retrieval_and_rerank self query
              = Inr (takeWhile (\<lambda>d. page_content d = []) docs))
    \<and> (docs = [] \<or> page_content (hd docs) \<noteq> [] \<longrightarrow> retrieval_and_rerank self query = Inr [])
    \<and> (\<forall>ctx. retrieval_and_rerank self query = Inr ctx \<longrightarrow>
          mset ctx = mset (takeWhile (\<lambda>d. page_content d = []) docs)
        \<and> content_sum ctx = 0
        \<and> (\<forall>ans a. qa_chain self ctx query = Inr ans \<longrightarrow>
              map_of ans ''output_text'' = Some a \<longrightarrow> run self query = Inr a))"
proof -
  let ?z = "takeWhile (\<lambda>d. page_content d = []) docs"
  have dr: "delete_redundancy (max_content (params self)) docs = ?z"
    using assms(1) by (simp add: delete_redundancy_zero_budget)
  have a: "\<not> sort_enabled (params self) \<longrightarrow> retrieval_and_rerank self query = Inr ?z"
    using assms(2) dr by (simp add: retrieval_and_rerank_def)
  have b: "docs = [] \<or> page_content (hd docs) \<noteq> [] \<longrightarrow> retrieval_and_rerank self query = Inr []"
  proof
    assume "docs = [] \<or> page_content (hd docs) \<noteq> []"
    then have "?z = []" by (cases docs) auto
    then show "retrieval_and_rerank self query = Inr []"
      using assms(2) dr by (simp add: retrieval_and_rerank_def sorted_py_Nil)
  qed
  have c: "\<forall>ctx. retrieval_and_rerank self query = Inr ctx \<longrightarrow>
          mset ctx = mset ?z
        \<and> content_sum ctx = 0
        \<and> (\<forall>ans a. qa_chain self ctx query = Inr ans \<longrightarrow>
              map_of ans ''output_text'' = Some a \<longrightarrow> run self query = Inr a)"
  proof (intro allI impI)
    fix ctx
    assume r: "retrieval_and_rerank self query = Inr ctx"
    have m: "mset ctx = mset ?z"
    proof (cases "sort_enabled (params self)")
      case True
      with r assms(2) dr have "sorted_py sort_key_lambda ?z = Inr ctx"
        by (simp add: retrieval_and_rerank_def)
      then show ?thesis by (rule sorted_py_mset)
    next
      case False
      with a r show ?thesis by simp
    qed
    have "content_sum ctx = sum_mset (image_mset (\<lambda>d. int (length (page_content d))) (mset ctx))"
      by (simp add: content_sum_def sum_mset_sum_list [symmetric] del: sum_mset_sum_list)
    also have "\<dots> = content_sum ?z"
      by (simp add: m content_sum_def sum_mset_sum_list [symmetric] del: sum_mset_sum_list)
    finally have s: "content_sum ctx = 0"
      by (simp add: content_sum_leading_empty)
    have q: "\<forall>ans a. qa_chain self ctx query = Inr ans \<longrightarrow>
              map_of ans ''output_text'' = Some a \<longrightarrow> run self query = Inr a"
      using r run_chain_answers by blast
    from m s q show "mset ctx = mset ?z
        \<and> content_sum ctx = 0
        \<and> (\<forall>ans a. qa_chain self ctx query = Inr ans \<longrightarrow>
              map_of ans ''output_text'' = Some a \<longrightarrow> run self query = Inr a)"
      by blast
  qed
  from a b c show ?thesis by blast
qed

theorem zero_budget_context_witness:
  "retrieval_and_rerank (scenario_tool 0 None [chunk ''A'' 0 300, chunk ''A'' 1 0] answering_chain)
     ''what is it'' = Inr []
   \<and> run (scenario_tool 0 None [chunk ''A'' 0 300, chunk ''A'' 1 0] answering_chain)
     ''what is it'' = Inr ''answer''"
  using zero_budget_context
    [of "scenario_tool 0 None [chunk ''A'' 0 300, chunk ''A'' 1 0] answering_chain"
        "''what is it''" "[chunk ''A'' 0 300, chunk ''A'' 1 0]"]
  by (simp add: scenario_tool_def fixed_retriever_def answering_chain_def sort_enabled_def
      chunk_def)

text \<open>
  The claim as first stated fails: with \<open>max_content = 0\<close> and a first candidate of
  empty content, the assembled context is not empty.
\<close>

theorem max_content_zero_counterexample:
  "max_content (params (scenario_tool 0 None [chunk ''A'' 0 0, chunk ''B'' 0 5] answering_chain)) = 0
   \<and> retrieval_and_rerank (scenario_tool 0 None [chunk ''A'' 0 0, chunk ''B'' 0 5] answering_chain)
        ''what is it'' = Inr [chunk ''A'' 0 0]
   \<and> [chunk ''A'' 0 0] \<noteq> []"
  by (simp add: retrieval_and_rerank_def scenario_tool_def fixed_retriever_def
      sort_enabled_def delete_redundancy_def chunk_def)

lemma sorted_py_result:
  assumes "sorted_py key xs = Inr ys"
  shows "(\<forall>x \<in> set xs. key x = Inr (projr (key x)))
       \<and> ys = sort_key (\<lambda>x. projr (key x)) xs"
proof -
  have "\<forall>x \<in> set xs. \<exists>k. key x = Inr k"
  proof (rule ccontr)
    assume "\<not> (\<forall>x \<in> set xs. \<exists>k. key x = Inr k)"
    then obtain x where x: "x \<in> set xs" and "\<forall>k. key x \<noteq> Inr k" by blast
    then obtain e where "key x = Inl e" by (cases "key x") auto
    with x sorted_py_fails [of x xs key e] assms show False by auto
  qed
  then have all: "\<forall>x \<in> set xs. key x = Inr (projr (key x))" by auto
  then have "sorted_py key xs = Inr (sort_key (\<lambda>x. projr (key x)) xs)"
    by (rule sorted_py_succeeds)
  with assms all show ?thesis by simp
qed

lemma sort_key_lambda_fields:
  "sort_key_lambda d = Inr k \<Longrightarrow>
   (source (metadata d), chunk_index (metadata d)) = (Some (fst k), Some (snd k))"
  by (auto simp: sort_key_lambda_def split: option.splits)

lemma sorted_pairs_ascending:
  fixes ks :: "(string \<times> int) list"
  assumes "sorted ks"
  shows "sorted_wrt (\<lambda>a b. fst a < fst b \<or> (fst a = fst b \<and> snd a \<le> snd b)) ks"
proof -
  have "sorted_wrt (\<le>) ks" using assms by simp
  then show ?thesis
    by (rule sorted_wrt_mono_rel [rotated]) (auto simp: less_eq_prod_def)
qed

text \<open>
  C4. For every fused candidate list and every \<^verbatim>\<open>max_content\<close>, the context with the
  flag \<^verbatim>\<open>sort_by_source_and_index\<close> absent or false is the result of the budget cutoff,
  and whenever \<^verbatim>\<open>retrieval_and_rerank\<close> returns a context with the flag set, that context
  holds the same chunks, each as often: the flag changes only the order, the sort being
  applied to the truncated list. Every chunk of the reordered context carries a source
  and a chunk index, and along the context the sources ascend and, among equal sources,
  the chunk indices ascend. With the flag set a context is returned whenever every
  surviving chunk carries both entries.
\<close>

theorem reorder_after_truncation:
  assumes "retriever self query (collection_name self) = Inr docs"
  shows "retrieval_and_rerank (self\<lparr>params := (params self)\<lparr>sort_by_source_and_index := None\<rparr>\<rparr>) query
           = Inr (delete_redundancy (max_content (params self)) docs)
    \<and> retrieval_and_rerank (self\<lparr>params := (params self)\<lparr>sort_by_source_and_index := Some False\<rparr>\<rparr>) query
           = Inr (delete_redundancy (max_content (params self)) docs)
    \<and> (\<forall>ctx.
          retrieval_and_rerank (self\<lparr>params := (params self)\<lparr>sort_by_source_and_index := Some True\<rparr>\<rparr>) query
            = Inr ctx \<longrightarrow>
          mset ctx = mset (delete_redundancy (max_content (params self)) docs)
        \<and> (\<exists>ks. map (\<lambda>d. (source (metadata d), chunk_index (metadata d))) ctx
                   = map (\<lambda>k. (Some (fst k), Some (snd k))) ks
               \<and> sorted_wrt (\<lambda>a b. fst a < fst b \<or> (fst a = fst b \<and> snd a \<le> snd b)) ks))
    \<and> ((\<forall>d \<in> set (delete_redundancy (max_content (params self)) docs).
           source (metadata d) \<noteq> None \<and> chunk_index (metadata d) \<noteq> None) \<longrightarrow>
        (\<exists>ctx.
          retrieval_and_rerank (self\<lparr>params := (params self)\<lparr>sort_by_source_and_index := Some True\<rparr>\<rparr>) query
            = Inr ctx))"
proof -
  let ?s = "delete_redundancy (max_content (params self)) docs"
  let ?on = "retrieval_and_rerank
     (self\<lparr>params := (params self)\<lparr>sort_by_source_and_index := Some True\<rparr>\<rparr>) query"
  let ?k = "\<lambda>x. projr (sort_key_lambda x)"
  have off1: "retrieval_and_rerank (self\<lparr>params := (params self)\<lparr>sort_by_source_and_index := None\<rparr>\<rparr>) query
           = Inr ?s"
    using assms by (simp add: retrieval_and_rerank_def sort_enabled_def)
  have off2: "retrieval_and_rerank (self\<lparr>params := (params self)\<lparr>sort_by_source_and_index := Some False\<rparr>\<rparr>) query
           = Inr ?s"
    using assms by (simp add: retrieval_and_rerank_def sort_enabled_def)
  have on: "?on = sorted_py sort_key_lambda ?s"
    using assms by (simp add: retrieval_and_rerank_def sort_enabled_def)
  have perm: "\<forall>ctx. ?on = Inr ctx \<longrightarrow>
          mset ctx = mset ?s
        \<and> (\<exists>ks. map (\<lambda>d. (source (metadata d), chunk_index (metadata d))) ctx
                   = map (\<lambda>k. (Some (fst k), Some (snd k))) ks
               \<and> sorted_wrt (\<lambda>a b. fst a < fst b \<or> (fst a = fst b \<and> snd a \<le> snd b)) ks)"
  proof (intro allI impI)
    fix ctx
    assume "?on = Inr ctx"
    with on have sp: "sorted_py sort_key_lambda ?s = Inr ctx" by simp
    from sorted_py_result [OF sp]
    have keys: "\<forall>x \<in> set ?s. sort_key_lambda x = Inr (?k x)"
      and ctx: "ctx = sort_key ?k ?s" by blast+
    have m: "mset ctx = mset ?s" using ctx by simp
    have "\<forall>x \<in> set ctx. sort_key_lambda x = Inr (?k x)"
      using keys ctx by simp
    then have "\<forall>x \<in> set ctx.
        (source (metadata x), chunk_index (metadata x)) = (Some (fst (?k x)), Some (snd (?k x)))"
      using sort_key_lambda_fields by blast
    then have mk: "map (\<lambda>d. (source (metadata d), chunk_index (metadata d))) ctx
                   = map (\<lambda>k. (Some (fst k), Some (snd k))) (map ?k ctx)"
      by simp
    have "sorted (map ?k ctx)" using ctx by simp
    then have so: "sorted_wrt (\<lambda>a b. fst a < fst b \<or> (fst a = fst b \<and> snd a \<le> snd b))
                     (map ?k ctx)"
      by (rule sorted_pairs_ascending)
    from mk so have "\<exists>ks. map (\<lambda>d. (source (metadata d), chunk_index (metadata d))) ctx
                   = map (\<lambda>k. (Some (fst k), Some (snd k))) ks
               \<and> sorted_wrt (\<lambda>a b. fst a < fst b \<or> (fst a = fst b \<and> snd a \<le> snd b)) ks"
      by blast
    with m show "mset ctx = mset ?s
        \<and> (\<exists>ks. map (\<lambda>d. (source (metadata d), chunk_index (metadata d))) ctx
                   = map (\<lambda>k. (Some (fst k), Some (snd k))) ks
               \<and> sorted_wrt (\<lambda>a b. fst a < fst b \<or> (fst a = fst b \<and> snd a \<le> snd b)) ks)"
      by blast
  qed
  have total: "(\<forall>d \<in> set ?s. source (metadata d) \<noteq> None \<and> chunk_index (metadata d) \<noteq> None)
        \<longrightarrow> (\<exists>ctx. ?on = Inr ctx)"
  proof
    assume "\<forall>d \<in> set ?s. source (metadata d) \<noteq> None \<and> chunk_index (metadata d) \<noteq> None"
    then have "\<forall>x \<in> set ?s. sort_key_lambda x = Inr (?k x)"
      using sort_key_lambda_present by blast
    then have "sorted_py sort_key_lambda ?s = Inr (sort_key ?k ?s)"
      by (rule sorted_py_succeeds)
    with on show "\<exists>ctx. ?on = Inr ctx" by simp
  qed
  from off1 off2 perm total show ?thesis by blast
qed

text \<open>
  A fused list \<open>B/0, A/1, A/0\<close> of 300 characters each and a budget of 700: the
  survivors are \<open>B/0, A/1\<close>, and the reorder puts \<open>A/1\<close> in front of \<open>B/0\<close>.
\<close>

theorem reorder_after_truncation_witness:
  "retrieval_and_rerank
     (scenario_tool 700 (Some True) [chunk ''B'' 0 300, chunk ''A'' 1 300, chunk ''A'' 0 300]
        answering_chain) ''what is it''
   = Inr [chunk ''A'' 1 300, chunk ''B'' 0 300]
   \<and> retrieval_and_rerank
     (scenario_tool 700 None [chunk ''B'' 0 300, chunk ''A'' 1 300, chunk ''A'' 0 300]
        answering_chain) ''what is it''
   = Inr [chunk ''B'' 0 300, chunk ''A'' 1 300]
   \<and> mset [chunk ''A'' 1 300, chunk ''B'' 0 300] = mset [chunk ''B'' 0 300, chunk ''A'' 1 300]"
  using reorder_after_truncation
    [of "scenario_tool 700 None [chunk ''B'' 0 300, chunk ''A'' 1 300, chunk ''A'' 0 300]
        answering_chain" "''what is it''"
        "[chunk ''B'' 0 300, chunk ''A'' 1 300, chunk ''A'' 0 300]"]
  by (simp add: retrieval_and_rerank_def scenario_tool_def fixed_retriever_def
      sort_enabled_def delete_redundancy_def chunk_def sorted_py_def sort_key_lambda_def)

text \<open>
  C10. With the flag set, a surviving chunk that lacks \<^verbatim>\<open>source\<close> or \<^verbatim>\<open>chunk_index\<close> makes
  \<^verbatim>\<open>retrieval_and_rerank\<close> raise the \<open>KeyError\<close> of the sort-key lookup instead of
  returning a context.
\<close>

theorem reorder_requires_metadata:
  assumes "sort_enabled (params self)"
      and "retriever self query (collection_name self) = Inr docs"
      and "d \<in> set (delete_redundancy (max_content (params self)) docs)"
      and "source (metadata d) = None \<or> chunk_index (metadata d) = None"
  shows "retrieval_and_rerank self query = Inl (KeyError ''source'')
       \<or> retrieval_and_rerank self query = Inl (KeyError ''chunk_index'')"
proof -
  let ?s = "delete_redundancy (max_content (params self)) docs"
  from sort_key_lambda_missing [OF assms(4)] obtain e where "sort_key_lambda d = Inl e"
    by blast
  from assms(3) this sorted_py_fails [of d ?s sort_key_lambda e] obtain y e'
    where k: "sort_key_lambda y = Inl e'" and s: "sorted_py sort_key_lambda ?s = Inl e'"
    by blast
  have "retrieval_and_rerank self query = Inl e'"
    using assms(1,2) s by (simp add: retrieval_and_rerank_def)
  with sort_key_lambda_error [OF k] show ?thesis by auto
qed

theorem reorder_requires_metadata_witness:
  "retrieval_and_rerank
     (scenario_tool 700 (Some True)
        [chunk ''A'' 1 300,
         \<lparr>page_content = ''abc'',
          metadata = \<lparr>source = Some ''A'', chunk_index = None, origin_retriever = None\<rparr>\<rparr>,
         chunk ''B'' 0 500]
        answering_chain) ''what is it''
   = Inl (KeyError ''chunk_index'')"
  using reorder_requires_metadata
    [of "scenario_tool 700 (Some True)
        [chunk ''A'' 1 300,
         \<lparr>page_content = ''abc'',
          metadata = \<lparr>source = Some ''A'', chunk_index = None, origin_retriever = None\<rparr>\<rparr>,
         chunk ''B'' 0 500]
        answering_chain" "''what is it''"
        "[chunk ''A'' 1 300,
         \<lparr>page_content = ''abc'',
          metadata = \<lparr>source = Some ''A'', chunk_index = None, origin_retriever = None\<rparr>\<rparr>,
         chunk ''B'' 0 500]"
        "\<lparr>page_content = ''abc'',
          metadata = \<lparr>source = Some ''A'', chunk_index = None, origin_retriever = None\<rparr>\<rparr>"]
  by (simp add: retrieval_and_rerank_def scenario_tool_def fixed_retriever_def
      sort_enabled_def delete_redundancy_def chunk_def sorted_py_def sort_key_lambda_def)

subsection \<open>Properties of \<^verbatim>\<open>run\<close> and \<^verbatim>\<open>arun\<close>\<close>

lemma run_chain_raises:
  assumes "retrieval_and_rerank self query = Inr docs"
      and "qa_chain self docs query = Inl e"
  shows "run self query = Inl (NameError ''question'')"
  using assms by (simp add: run_def error_message_def handler_scope_def module_names_def)

text \<open>
  C2. The handler of \<^verbatim>\<open>run\<close> formats the name \<^verbatim>\<open>question\<close>, which is bound nowhere, so a
  failure of the chain leaves \<^verbatim>\<open>run\<close> as a \<open>NameError\<close> instead of becoming the answer
  text. Here the chain raises on a context of one chunk.
\<close>

theorem run_raises_when_chain_fails:
  "run (scenario_tool 500 None [chunk ''A'' 0 300] failing_chain) ''what is it''
     = Inl (NameError ''question'')"
  by (simp add: run_def retrieval_and_rerank_def scenario_tool_def fixed_retriever_def
      failing_chain_def sort_enabled_def delete_redundancy_def chunk_def
      error_message_def handler_scope_def module_names_def)

text \<open>
  C8. \<^verbatim>\<open>arun\<close> gives what \<^verbatim>\<open>run\<close> gives on the same tool and query, the answer or the
  exception.
\<close>

theorem arun_same_as_run: "arun self query = run self query"
  by (simp add: arun_def)

subsection \<open>Properties of the ensemble retriever\<close>

lemma dedup_unseen: "d \<in> set (dedup seen ds) \<Longrightarrow> identity d \<notin> set seen"
proof (induction ds arbitrary: seen)
  case Nil
  then show ?case by simp
next
  case (Cons x xs)
  show ?case
  proof (cases "identity x \<in> set seen")
    case True
    with Cons.prems have "d \<in> set (dedup seen xs)" by simp
    then show ?thesis by (rule Cons.IH)
  next
    case False
    with Cons.prems have "d = x \<or> d \<in> set (dedup (identity x # seen) xs)" by simp
    then show ?thesis
    proof
      assume "d = x"
      with False show ?thesis by simp
    next
      assume "d \<in> set (dedup (identity x # seen) xs)"
      then have "identity d \<notin> set (identity x # seen)" by (rule Cons.IH)
      then show ?thesis by simp
    qed
  qed
qed

lemma dedup_distinct: "distinct (map identity (dedup seen ds))"
proof (induction ds arbitrary: seen)
  case Nil
  show ?case by simp
next
  case (Cons x xs)
  show ?case
  proof (cases "identity x \<in> set seen")
    case True
    then show ?thesis using Cons.IH by simp
  next
    case False
    have "identity x \<notin> identity ` set (dedup (identity x # seen) xs)"
    proof
      assume "identity x \<in> identity ` set (dedup (identity x # seen) xs)"
      then obtain d where d: "d \<in> set (dedup (identity x # seen) xs)"
        and eq: "identity x = identity d" by auto
      from d have "identity d \<notin> set (identity x # seen)" by (rule dedup_unseen)
      with eq show False by simp
    qed
    then show ?thesis using False Cons.IH by simp
  qed
qed

lemma dedup_first_seen:
  "d \<in> set (dedup seen ds) \<Longrightarrow> find (\<lambda>x. identity x = identity d) ds = Some d"
proof (induction ds arbitrary: seen)
  case Nil
  then show ?case by simp
next
  case (Cons x xs)
  show ?case
  proof (cases "identity x \<in> set seen")
    case True
    with Cons.prems have m: "d \<in> set (dedup seen xs)" by simp
    then have "identity d \<notin> set seen" by (rule dedup_unseen)
    with True have "identity x \<noteq> identity d" by auto
    then show ?thesis using Cons.IH [OF m] by simp
  next
    case False
    with Cons.prems have "d = x \<or> d \<in> set (dedup (identity x # seen) xs)" by simp
    then show ?thesis
    proof
      assume "d = x"
      then show ?thesis by simp
    next
      assume m: "d \<in> set (dedup (identity x # seen) xs)"
      then have "identity d \<notin> set (identity x # seen)" by (rule dedup_unseen)
      then have "identity x \<noteq> identity d" by auto
      then show ?thesis using Cons.IH [OF m] by simp
    qed
  qed
qed

lemma dedup_identities:
  "identity ` set (dedup seen ds) = identity ` set ds - set seen"
proof (induction ds arbitrary: seen)
  case Nil
  show ?case by simp
next
  case (Cons x xs)
  show ?case
  proof (cases "identity x \<in> set seen")
    case True
    then show ?thesis using Cons.IH [of seen] by auto
  next
    case False
    then show ?thesis using Cons.IH [of "identity x # seen"] by auto
  qed
qed

lemma dedup_sublist: "subseq (dedup seen ds) ds"
  by (induction ds arbitrary: seen) (auto intro: list_emb_Cons)

text \<open>
  C6. The fused candidate list holds no two chunks with the same identity
  \<open>(source, chunk_index)\<close>. It is a subsequence of the concatenation of the retrievers'
  outputs in configuration order, every identity of the concatenation occurs in it, and
  the instance kept for an identity is the first one of the concatenation with that
  identity; no score is compared.
\<close>

theorem fused_identities_unique:
  "\<exists>fused. EnsembleRetriever rs query collection = Inr fused
     \<and> distinct (map identity fused)
     \<and> subseq fused (candidates rs query collection)
     \<and> identity ` set fused = identity ` set (candidates rs query collection)
     \<and> (\<forall>d \<in> set fused.
          find (\<lambda>x. identity x = identity d) (candidates rs query collection) = Some d)"
proof -
  let ?c = "candidates rs query collection"
  have a: "EnsembleRetriever rs query collection = Inr (dedup [] ?c)"
    by (simp add: EnsembleRetriever_def fuse_def)
  have b: "distinct (map identity (dedup [] ?c))" by (rule dedup_distinct)
  have c: "subseq (dedup [] ?c) ?c" by (rule dedup_sublist)
  have d: "identity ` set (dedup [] ?c) = identity ` set ?c"
    by (simp add: dedup_identities)
  have e: "\<forall>d \<in> set (dedup [] ?c). find (\<lambda>x. identity x = identity d) ?c = Some d"
    using dedup_first_seen by blast
  from a b c d e show ?thesis by blast
qed

theorem fused_identities_unique_witness:
  "EnsembleRetriever
     [returning KeywordRetriever [chunk ''A'' 0 3, chunk ''A'' 1 3],
      returning MixRetriever [chunk ''A'' 1 4, chunk ''B'' 0 3]] ''what is it'' ''collection''
   = Inr [tag_origin KeywordRetriever (chunk ''A'' 0 3),
          tag_origin KeywordRetriever (chunk ''A'' 1 3),
          tag_origin MixRetriever (chunk ''B'' 0 3)]
   \<and> find (\<lambda>x. identity x = identity (tag_origin KeywordRetriever (chunk ''A'' 1 3)))
        (candidates [returning KeywordRetriever [chunk ''A'' 0 3, chunk ''A'' 1 3],
           returning MixRetriever [chunk ''A'' 1 4, chunk ''B'' 0 3]] ''what is it'' ''collection'')
       = Some (tag_origin KeywordRetriever (chunk ''A'' 1 3))"
  using fused_identities_unique
    [of "[returning KeywordRetriever [chunk ''A'' 0 3, chunk ''A'' 1 3],
          returning MixRetriever [chunk ''A'' 1 4, chunk ''B'' 0 3]]"
        "''what is it''" "''collection''"]
  by (simp add: returning_def candidates_def contribution_def identity_def tag_origin_def
      chunk_def EnsembleRetriever_def fuse_def)

lemma candidates_drop_failing:
  "retrieve bad query collection = Inl e \<Longrightarrow>
   candidates (rs1 @ bad # rs2) query collection = candidates (rs1 @ rs2) query collection"
  by (simp add: candidates_def contribution_def)

lemma run_depends_on_retrieved:
  assumes "retriever self query (collection_name self) = retriever other query (collection_name other)"
      and "params self = params other" and "qa_chain self = qa_chain other"
  shows "run self query = run other query"
proof -
  have "retrieval_and_rerank self query = retrieval_and_rerank other query"
    by (simp only: retrieval_and_rerank_def assms)
  then show ?thesis
    by (simp only: run_def assms)
qed

text \<open>
  C3. When one of the configured retrievers raises, the fused result is the deduplicated
  merge of the outputs of the others, the same as if the failing retriever were not
  configured. \<^verbatim>\<open>run\<close> then behaves as on the ensemble without it: the retrieval step
  returns, and with the reorder off \<^verbatim>\<open>run\<close> returns the answer of the chain.
\<close>

theorem failing_retriever_dropped:
  assumes "retriever self = EnsembleRetriever (rs1 @ bad # rs2)"
      and "retrieve bad query (collection_name self) = Inl e"
  shows "retriever self query (collection_name self)
           = Inr (dedup [] (candidates (rs1 @ rs2) query (collection_name self)))
    \<and> retriever self query (collection_name self)
           = EnsembleRetriever (rs1 @ rs2) query (collection_name self)
    \<and> run self query = run (self\<lparr>retriever := EnsembleRetriever (rs1 @ rs2)\<rparr>) query
    \<and> (\<not> sort_enabled (params self) \<longrightarrow>
         (\<forall>ans a.
            qa_chain self
              (delete_redundancy (max_content (params self))
                 (dedup [] (candidates (rs1 @ rs2) query (collection_name self)))) query = Inr ans
            \<longrightarrow> map_of ans ''output_text'' = Some a \<longrightarrow> run self query = Inr a))"
proof -
  let ?col = "collection_name self"
  let ?f = "dedup [] (candidates (rs1 @ rs2) query ?col)"
  have c: "candidates (rs1 @ bad # rs2) query ?col = candidates (rs1 @ rs2) query ?col"
    using assms(2) by (rule candidates_drop_failing)
  have a: "retriever self query ?col = Inr ?f"
    using assms(1) c by (simp add: EnsembleRetriever_def fuse_def)
  have b: "retriever self query ?col = EnsembleRetriever (rs1 @ rs2) query ?col"
    using a by (simp add: EnsembleRetriever_def fuse_def)
  have r: "run self query = run (self\<lparr>retriever := EnsembleRetriever (rs1 @ rs2)\<rparr>) query"
    by (rule run_depends_on_retrieved) (simp_all add: b)
  have q: "\<not> sort_enabled (params self) \<longrightarrow>
         (\<forall>ans a.
            qa_chain self (delete_redundancy (max_content (params self)) ?f) query = Inr ans
            \<longrightarrow> map_of ans ''output_text'' = Some a \<longrightarrow> run self query = Inr a)"
    using a by (simp add: run_def retrieval_and_rerank_def)
  from a b r q show ?thesis by blast
qed

theorem failing_retriever_dropped_witness:
  "run (scenario_tool 700 None [] answering_chain
          \<lparr>retriever := EnsembleRetriever
             [returning KeywordRetriever [chunk ''A'' 0 300, chunk ''A'' 1 300],
              raising BaselineVectorRetriever (ExternalError ''connection refused''),
              returning MixRetriever [chunk ''A'' 1 300, chunk ''B'' 0 300]]\<rparr>) ''what is it''
     = Inr ''answer''
   \<and> EnsembleRetriever
        [returning KeywordRetriever [chunk ''A'' 0 300, chunk ''A'' 1 300],
         raising BaselineVectorRetriever (ExternalError ''connection refused''),
         returning MixRetriever [chunk ''A'' 1 300, chunk ''B'' 0 300]] ''what is it'' ''collection''
     = Inr [tag_origin KeywordRetriever (chunk ''A'' 0 300),
            tag_origin KeywordRetriever (chunk ''A'' 1 300),
            tag_origin MixRetriever (chunk ''B'' 0 300)]"
  using failing_retriever_dropped
    [of "scenario_tool 700 None [] answering_chain
          \<lparr>retriever := EnsembleRetriever
             [returning KeywordRetriever [chunk ''A'' 0 300, chunk ''A'' 1 300],
              raising BaselineVectorRetriever (ExternalError ''connection refused''),
              returning MixRetriever [chunk ''A'' 1 300, chunk ''B'' 0 300]]\<rparr>"
        "[returning KeywordRetriever [chunk ''A'' 0 300, chunk ''A'' 1 300]]"
        "raising BaselineVectorRetriever (ExternalError ''connection refused'')"
        "[returning MixRetriever [chunk ''A'' 1 300, chunk ''B'' 0 300]]"
        "''what is it''" "ExternalError ''connection refused''"]
  by (simp add: scenario_tool_def answering_chain_def sort_enabled_def returning_def
      raising_def candidates_def contribution_def identity_def tag_origin_def chunk_def
      EnsembleRetriever_def fuse_def run_def retrieval_and_rerank_def delete_redundancy_def)

subsection \<open>Properties of the construction\<close>

lemma known_retriever_type:
  "map_of retriever_classes t \<noteq> None \<Longrightarrow>
   t \<in> {''KeywordRetriever'', ''BaselineVectorRetriever'', ''MixRetriever'',
        ''SmallerChunksVectorRetriever''}"
  by (simp add: retriever_classes_def split: if_splits)

lemma post_init_retriever_unknown:
  "map_of retriever_classes t = None \<Longrightarrow>
   post_init_retriever C t vs ks sp rt = Inl (ValueError (''Unknown retriever type: '' @ t))"
  by (simp add: post_init_retriever_def)

lemma init_retrievers_known:
  "init_retrievers C vs ks rs acc = Inr out \<Longrightarrow>
   \<forall>r \<in> set rs. map_of retriever_classes (rtype r) \<noteq> None"
proof (induction rs arbitrary: acc)
  case Nil
  show ?case by simp
next
  case (Cons r rs)
  show ?case
  proof (cases "post_init_retriever C (rtype r) vs ks (splitter r) (retrieval r)")
    case (Inl e)
    with Cons.prems show ?thesis by simp
  next
    case (Inr obj)
    with Cons.prems have "init_retrievers C vs ks rs (acc @ [obj]) = Inr out" by simp
    then have rest: "\<forall>r \<in> set rs. map_of retriever_classes (rtype r) \<noteq> None"
      by (rule Cons.IH)
    have "map_of retriever_classes (rtype r) \<noteq> None"
    proof
      assume "map_of retriever_classes (rtype r) = None"
      then have "post_init_retriever C (rtype r) vs ks (splitter r) (retrieval r)
                   = Inl (ValueError (''Unknown retriever type: '' @ rtype r))"
        by (rule post_init_retriever_unknown)
      with Inr show False by simp
    qed
    with rest show ?thesis by simp
  qed
qed

text \<open>
  C7. When the retriever list of the configuration has an entry whose type is not one of
  \<^verbatim>\<open>KeywordRetriever\<close>, \<^verbatim>\<open>BaselineVectorRetriever\<close>, \<^verbatim>\<open>MixRetriever\<close> and
  \<^verbatim>\<open>SmallerChunksVectorRetriever\<close>, the construction ends in an exception, whatever the
  collaborators do: no tool is built that could take a request.
\<close>

theorem unknown_retriever_type_fails:
  assumes "r \<in> set (retrievers ps)"
      and "rtype r \<notin> {''KeywordRetriever'', ''BaselineVectorRetriever'', ''MixRetriever'',
                       ''SmallerChunksVectorRetriever''}"
  shows "\<exists>e. BishengRAGTool_init C vector_store keyword_store llm collection ps = Inl e"
proof (cases "init_retrievers C vector_store keyword_store (retrievers ps) []")
  case (Inl e)
  then show ?thesis by (simp add: BishengRAGTool_init_def)
next
  case (Inr out)
  then have "\<forall>r \<in> set (retrievers ps). map_of retriever_classes (rtype r) \<noteq> None"
    by (rule init_retrievers_known)
  with assms(1) have "map_of retriever_classes (rtype r) \<noteq> None" by blast
  then have "rtype r \<in> {''KeywordRetriever'', ''BaselineVectorRetriever'', ''MixRetriever'',
                       ''SmallerChunksVectorRetriever''}"
    by (rule known_retriever_type)
  with assms(2) show ?thesis by blast
qed

theorem unknown_retriever_type_fails_witness:
  "BishengRAGTool_init scenario_collaborators ''milvus'' ''elastic'' () ''collection''
     \<lparr>retrievers =
        [\<lparr>rtype = ''KeywordRetriever'',
          splitter = [(''text_splitter'', [(''type'', ''ElemCharacterTextSplitter''), (''chunk_size'', ''1000'')])],
          retrieval = [(''search_type'', ''similarity'')]\<rparr>,
         \<lparr>rtype = ''GraphRetriever'', splitter = [], retrieval = []\<rparr>],
      prompt_type = None, chain_type = ''stuff'', max_content = 15000,
      sort_by_source_and_index = None\<rparr>
   = Inl (ValueError ''Unknown retriever type: GraphRetriever'')"
  using unknown_retriever_type_fails
    [of "\<lparr>rtype = ''GraphRetriever'', splitter = [], retrieval = []\<rparr>"
        "\<lparr>retrievers =
        [\<lparr>rtype = ''KeywordRetriever'',
          splitter = [(''text_splitter'', [(''type'', ''ElemCharacterTextSplitter''), (''chunk_size'', ''1000'')])],
          retrieval = [(''search_type'', ''similarity'')]\<rparr>,
         \<lparr>rtype = ''GraphRetriever'', splitter = [], retrieval = []\<rparr>],
      prompt_type = None, chain_type = ''stuff'', max_content = 15000,
      sort_by_source_and_index = None\<rparr>"
        scenario_collaborators "''milvus''" "''elastic''" "()" "''collection''"]
  by (simp add: BishengRAGTool_init_def post_init_retriever_def retriever_classes_def
      scenario_collaborators_def)

text \<open>A configuration of known types builds, with collaborators that succeed.\<close>

lemma known_config_builds:
  "\<exists>t. BishengRAGTool_init scenario_collaborators ''milvus'' ''elastic'' () ''collection''
     \<lparr>retrievers =
        [\<lparr>rtype = ''KeywordRetriever'',
          splitter = [(''text_splitter'', [(''type'', ''ElemCharacterTextSplitter''), (''chunk_size'', ''1000'')])],
          retrieval = [(''search_type'', ''similarity'')]\<rparr>],
      prompt_type = None, chain_type = ''stuff'', max_content = 15000,
      sort_by_source_and_index = None\<rparr> = Inr t"
  by (simp add: BishengRAGTool_init_def post_init_retriever_def retriever_classes_def
      scenario_collaborators_def)

end
